theory Spec2Isabelle
  imports Main "HOL-Library.Sublist" "HOL-Library.AList"
begin

section \<open>Python strings and integers\<close>

text \<open>
  The script \<^verbatim>\<open>census_feature_vecs.py\<close> names its cache files
  \<^verbatim>\<open>f"{var}--{YEAR}.feather"\<close> and reads the names back with \<^verbatim>\<open>str.split\<close> and
  \<^verbatim>\<open>int\<close>. Strings are byte strings here; the functions below are the ASCII fragment
  of the Python built-ins the script calls.
\<close>

text \<open>
  \<^verbatim>\<open>s.split(sep)\<close> for the non-empty separator \<open>d # ds\<close>: the occurrences of the
  separator are found from the left and do not overlap; the result always has at least
  one element.
\<close>

fun py_split :: "char \<Rightarrow> string \<Rightarrow> string \<Rightarrow> string list" where
  "py_split d ds [] = [[]]"
| "py_split d ds (c # cs) =
     (if prefix (d # ds) (c # cs) then [] # py_split d ds (drop (length ds) cs)
      else (case py_split d ds cs of
              p # ps \<Rightarrow> (c # p) # ps
            | [] \<Rightarrow> [[c]]))"

text \<open>\<^verbatim>\<open>sep in s\<close> for strings.\<close>

fun py_contains :: "string \<Rightarrow> string \<Rightarrow> bool" where
  "py_contains sep [] = (sep = [])"
| "py_contains sep (c # cs) = (prefix sep (c # cs) \<or> py_contains sep cs)"

text \<open>\<^verbatim>\<open>str(n)\<close> for an integer: decimal digits, with a minus sign when negative.\<close>

definition digit_char :: "nat \<Rightarrow> char" where
  "digit_char n = char_of (48 + n)"

fun str_nat :: "nat \<Rightarrow> string" where
  "str_nat n = (if n < 10 then [digit_char n] else str_nat (n div 10) @ [digit_char (n mod 10)])"

declare str_nat.simps [simp del]

definition str_int :: "int \<Rightarrow> string" where
  "str_int i = (if i < 0 then CHR ''-'' # str_nat (nat (- i)) else str_nat (nat i))"

text \<open>
  \<^verbatim>\<open>int(s)\<close> in base 10: surrounding whitespace is stripped, one sign is allowed, then
  come decimal digits, where single underscores may stand between two digits. \<open>None\<close>
  is the \<^verbatim>\<open>ValueError\<close> of a string that is not an integer literal.
\<close>

definition is_digit :: "char \<Rightarrow> bool" where
  "is_digit c = (48 \<le> (of_char c :: nat) \<and> (of_char c :: nat) \<le> 57)"

definition digit_val :: "char \<Rightarrow> nat" where
  "digit_val c = of_char c - 48"

definition is_space :: "char \<Rightarrow> bool" where
  "is_space c = ((of_char c :: nat) \<in> {9, 10, 11, 12, 13, 28, 29, 30, 31, 32})"

definition py_strip :: "string \<Rightarrow> string" where
  "py_strip s = rev (dropWhile is_space (rev (dropWhile is_space s)))"

fun digits_from :: "nat \<Rightarrow> string \<Rightarrow> nat option" where
  "digits_from acc [] = Some acc"
| "digits_from acc (c # cs) =
     (if is_digit c then digits_from (10 * acc + digit_val c) cs
      else if c = CHR ''_'' then
        (case cs of
           [] \<Rightarrow> None
         | e # es \<Rightarrow> if is_digit e then digits_from (10 * acc + digit_val e) es else None)
      else None)"

definition py_digits :: "string \<Rightarrow> nat option" where
  "py_digits s = (case s of
       [] \<Rightarrow> None
     | c # cs \<Rightarrow> if is_digit c then digits_from (digit_val c) cs else None)"

definition py_int :: "string \<Rightarrow> int option" where
  "py_int s = (case py_strip s of
       [] \<Rightarrow> None
     | c # cs \<Rightarrow>
         if c = CHR ''-'' then map_option (\<lambda>n. - int n) (py_digits cs)
         else if c = CHR ''+'' then map_option int (py_digits cs)
         else map_option int (py_digits (c # cs)))"

section \<open>The cache directory\<close>

text \<open>The exceptions of the script's own code paths.\<close>

datatype exn =
    ValueError
  | KeyError
  | IndexError
  | OSError
  | ReadError string
  | WriteError string
  | RemoteError string

text \<open>
  One row of a cached record set, as \<^verbatim>\<open>get_acs_variable\<close> lays it out: the columns
  \<^verbatim>\<open>state\<close>, \<^verbatim>\<open>GEOGRAPHY\<close>, \<^verbatim>\<open>year\<close>, \<^verbatim>\<open>descr\<close> and \<^verbatim>\<open>value\<close>. The survey's number is
  an integer here (\<open>None\<close> is a null); no operation of the script computes with it.
\<close>

record acs_row =
  r_state :: string
  r_geo :: string
  r_year :: int
  r_descr :: string
  r_value :: "int option"

text \<open>
  An entry of the cache directory is either a table that \<^verbatim>\<open>feather.read_feather\<close>
  returns and that has the columns above, or anything else: a file that is not a feather
  table or lacks a column. On the latter the body of either merge loop raises.
\<close>

datatype cache_file = Unreadable | RecordSet "acs_row list"

text \<open>
  A directory is what \<^verbatim>\<open>os.listdir\<close> returns, in the order it returns it, each name with
  its content; \<open>NoDir\<close> is a path that cannot be listed. A name is one path component:
  the directory has no subdirectories that matter here.
\<close>

datatype cache_dir = NoDir | Listing "(string \<times> cache_file) list"

definition listdir :: "cache_dir \<Rightarrow> exn + (string \<times> cache_file) list" where
  "listdir d = (case d of NoDir \<Rightarrow> Inl OSError | Listing files \<Rightarrow> Inr files)"

section \<open>Completion tracker\<close>

text \<open>
  The body of the loop of \<^verbatim>\<open>get_completed_vars\<close> up to the comparison of the year:
  \<^verbatim>\<open>filename.split(".")[0]\<close>, then \<^verbatim>\<open>var, yr = filename.split("--")\<close>, which raises
  \<^verbatim>\<open>ValueError\<close> unless the split has exactly two parts, then \<^verbatim>\<open>int(yr)\<close>.
\<close>

definition parse_cache_name :: "string \<Rightarrow> exn + (string \<times> int)" where
  "parse_cache_name filename =
     (case py_split (CHR ''.'') [] filename of
        [] \<Rightarrow> Inl IndexError
      | stem # _ \<Rightarrow>
          (case py_split (CHR ''-'') ''-'' stem of
             [var, yr] \<Rightarrow>
               (case py_int yr of
                  None \<Rightarrow> Inl ValueError
                | Some y \<Rightarrow> Inr (var, y))
           | _ \<Rightarrow> Inl ValueError))"

fun completed_loop :: "int \<Rightarrow> string list \<Rightarrow> string set \<Rightarrow> exn + string set" where
  "completed_loop year [] completed_vars = Inr completed_vars"
| "completed_loop year (filename # rest) completed_vars =
     (case parse_cache_name filename of
        Inl e \<Rightarrow> Inl e
      | Inr (var, yr) \<Rightarrow>
          if yr \<noteq> year then completed_loop year rest completed_vars
          else completed_loop year rest (insert var completed_vars))"

definition get_completed_vars :: "cache_dir \<Rightarrow> int \<Rightarrow> exn + string set" where
  "get_completed_vars dir year =
     (case listdir dir of
        Inl e \<Rightarrow> Inl e
      | Inr files \<Rightarrow> completed_loop year (map fst files) {})"

section \<open>Data frames\<close>

text \<open>
  A pandas data frame, as far as the merge functions use one: the column labels in
  order, and the rows, each row giving its cells by label in the order of the columns.
  The row index is left out: no operation of the script reads it. The functions below
  are the pandas operations the script calls, on frames whose labels are distinct.
\<close>

datatype cell = Missing | Text string | Number int

record frame =
  columns :: "string list"
  rows :: "(string \<times> cell) list list"

definition GEOGRAPHY :: string where
  "GEOGRAPHY = ''tract''"

definition cell_of_value :: "int option \<Rightarrow> cell" where
  "cell_of_value v = (case v of None \<Rightarrow> Missing | Some n \<Rightarrow> Number n)"

definition row_of :: "acs_row \<Rightarrow> (string \<times> cell) list" where
  "row_of r =
     [(''state'', Text (r_state r)), (GEOGRAPHY, Text (r_geo r)), (''year'', Number (r_year r)),
      (''descr'', Text (r_descr r)), (''value'', cell_of_value (r_value r))]"

text \<open>\<^verbatim>\<open>feather.read_feather(Path(dir) / Path(filename))\<close>.\<close>

definition read_feather :: "string \<Rightarrow> cache_file \<Rightarrow> exn + frame" where
  "read_feather filename f =
     (case f of
        Unreadable \<Rightarrow> Inl (ReadError filename)
      | RecordSet rs \<Rightarrow>
          Inr \<lparr>columns = [''state'', GEOGRAPHY, ''year'', ''descr'', ''value''],
               rows = map row_of rs\<rparr>)"

definition cell_at :: "(string \<times> cell) list \<Rightarrow> string \<Rightarrow> cell" where
  "cell_at r c = (case map_of r c of None \<Rightarrow> Missing | Some v \<Rightarrow> v)"

text \<open>\<^verbatim>\<open>d[c]\<close>: the column as a series, \<^verbatim>\<open>KeyError\<close> when there is no such label.\<close>

definition get_column :: "frame \<Rightarrow> string \<Rightarrow> exn + cell list" where
  "get_column d c =
     (if c \<in> set (columns d) then Inr (map (\<lambda>r. cell_at r c) (rows d)) else Inl KeyError)"

text \<open>\<^verbatim>\<open>.astype(str)\<close> on one cell.\<close>

definition astype_str :: "cell \<Rightarrow> string" where
  "astype_str c = (case c of Missing \<Rightarrow> ''None'' | Text s \<Rightarrow> s | Number n \<Rightarrow> str_int n)"

text \<open>\<^verbatim>\<open>a.astype(str) + b.astype(str)\<close> for two series of one frame.\<close>

definition str_add :: "cell list \<Rightarrow> cell list \<Rightarrow> cell list" where
  "str_add a b = map (\<lambda>(x, y). Text (astype_str x @ astype_str y)) (zip a b)"

text \<open>
  \<^verbatim>\<open>d[c] = series\<close>: an existing column is replaced where it stands, a new one is
  appended.
\<close>

definition set_column :: "frame \<Rightarrow> string \<Rightarrow> cell list \<Rightarrow> frame" where
  "set_column d c series =
     \<lparr>columns = (if c \<in> set (columns d) then columns d else columns d @ [c]),
      rows = map (\<lambda>(r, v). AList.update c v r) (zip (rows d) series)\<rparr>"

text \<open>\<^verbatim>\<open>d.drop(labels, axis=1, inplace=True)\<close>.\<close>

definition drop_columns :: "frame \<Rightarrow> string list \<Rightarrow> exn + frame" where
  "drop_columns d labels =
     (if set labels \<subseteq> set (columns d)
      then Inr \<lparr>columns = filter (\<lambda>c. c \<notin> set labels) (columns d),
                rows = map (filter (\<lambda>(c, v). c \<notin> set labels)) (rows d)\<rparr>
      else Inl KeyError)"

text \<open>\<^verbatim>\<open>d.rename(columns={old : new}, inplace=True)\<close>.\<close>

definition rename_column :: "frame \<Rightarrow> string \<Rightarrow> string \<Rightarrow> frame" where
  "rename_column d old new =
     \<lparr>columns = map (\<lambda>c. if c = old then new else c) (columns d),
      rows = map (map (\<lambda>(c, v). (if c = old then new else c, v))) (rows d)\<rparr>"

text \<open>\<^verbatim>\<open>d[[l1, l2, ...]]\<close>.\<close>

definition select_columns :: "frame \<Rightarrow> string list \<Rightarrow> exn + frame" where
  "select_columns d labels =
     (if set labels \<subseteq> set (columns d)
      then Inr \<lparr>columns = labels, rows = map (\<lambda>r. map (\<lambda>l. (l, cell_at r l)) labels) (rows d)\<rparr>
      else Inl KeyError)"

text \<open>
  \<^verbatim>\<open>pd.concat(frames, axis=0)\<close>: \<^verbatim>\<open>ValueError\<close> on the empty list; otherwise the rows
  of all frames stacked, over the union of the columns in the order they first appear,
  a cell being missing where a frame has no such column.
\<close>

definition union_columns :: "string list \<Rightarrow> string list" where
  "union_columns cs = fold (\<lambda>c acc. if c \<in> set acc then acc else acc @ [c]) cs []"

definition pd_concat :: "frame list \<Rightarrow> exn + frame" where
  "pd_concat fs =
     (if fs = [] then Inl ValueError
      else
        let cols = union_columns (concat (map columns fs))
        in Inr \<lparr>columns = cols,
                 rows = concat (map (\<lambda>f. map (\<lambda>r. map (\<lambda>c. (c, cell_at r c)) cols) (rows f)) fs)\<rparr>)"

text \<open>
  \<^verbatim>\<open>left.merge(right, how="left", on=key)\<close>: every row of the left frame is kept, in
  order; it is paired with each row of the right frame that has the same key, or, when
  there is none, with missing cells. A label other than the key that both frames have
  gets the suffix \<^verbatim>\<open>_x\<close> on the left and \<^verbatim>\<open>_y\<close> on the right.
\<close>

definition suffixed :: "string list \<Rightarrow> string \<Rightarrow> string \<Rightarrow> string" where
  "suffixed overlap sfx c = (if c \<in> set overlap then c @ sfx else c)"

definition relabel :: "(string \<Rightarrow> string) \<Rightarrow> (string \<times> cell) list \<Rightarrow> (string \<times> cell) list" where
  "relabel f r = map (\<lambda>(c, v). (f c, v)) r"

text \<open>The rows one row of the left frame gives.\<close>

definition join_rows ::
  "(string \<Rightarrow> string) \<Rightarrow> (string \<Rightarrow> string) \<Rightarrow> string list \<Rightarrow> string \<Rightarrow>
   (string \<times> cell) list list \<Rightarrow> (string \<times> cell) list \<Rightarrow> (string \<times> cell) list list" where
  "join_rows lname rname rcols key right_rows l =
     (case filter (\<lambda>r. cell_at r key = cell_at l key) right_rows of
        [] \<Rightarrow> [relabel lname l @ map (\<lambda>c. (rname c, Missing)) rcols]
      | ms \<Rightarrow> map (\<lambda>r. relabel lname l @ relabel rname (filter (\<lambda>(c, v). c \<noteq> key) r)) ms)"

definition merge_left :: "frame \<Rightarrow> frame \<Rightarrow> string \<Rightarrow> exn + frame" where
  "merge_left left right key =
     (if key \<notin> set (columns left) \<or> key \<notin> set (columns right) then Inl KeyError
      else
        let rcols = filter (\<lambda>c. c \<noteq> key) (columns right);
            overlap = filter (\<lambda>c. c \<in> set rcols) (columns left);
            lname = suffixed overlap ''_x'';
            rname = suffixed overlap ''_y''
        in Inr \<lparr>columns = map lname (columns left) @ map rname rcols,
                 rows = concat (map (join_rows lname rname rcols key (rows right)) (rows left))\<rparr>)"

section \<open>Merge engine\<close>

text \<open>
  Sequencing of statements that may raise: the first exception ends the function.
\<close>

definition bind_exn :: "exn + 'a \<Rightarrow> ('a \<Rightarrow> exn + 'b) \<Rightarrow> exn + 'b" where
  "bind_exn m k = (case m of Inl e \<Rightarrow> Inl e | Inr x \<Rightarrow> k x)"

text \<open>\<^verbatim>\<open>variable_name = filename.split("--")[0]\<close>.\<close>

definition variable_name_of :: "string \<Rightarrow> exn + string" where
  "variable_name_of filename =
     (case py_split (CHR ''-'') ''-'' filename of
        [] \<Rightarrow> Inl IndexError
      | v # _ \<Rightarrow> Inr v)"

text \<open>
  The body of the loop of \<^verbatim>\<open>concatenate_variables_long\<close> from \<^verbatim>\<open>read_feather\<close> on:
  the frame it appends to \<^verbatim>\<open>total\<close>. The progress line it prints every thousandth file
  is left out.
\<close>

definition long_frame :: "string \<Rightarrow> string \<Rightarrow> cache_file \<Rightarrow> exn + frame" where
  "long_frame variable_name filename f =
     bind_exn (read_feather filename f) (\<lambda>d.
     bind_exn (get_column d ''state'') (\<lambda>st.
     bind_exn (get_column d GEOGRAPHY) (\<lambda>geo.
     bind_exn (drop_columns (set_column d ''unique_id'' (str_add st geo))
                 [''state'', GEOGRAPHY, ''year'', ''descr'']) (\<lambda>d'.
     Inr (set_column d' ''variable'' (replicate (length (rows d')) (Text variable_name)))))))"

fun long_loop ::
  "(string \<times> cache_file) list \<Rightarrow> frame list \<Rightarrow> string list \<Rightarrow> exn + frame list \<times> string list" where
  "long_loop [] totals variables = Inr (totals, variables)"
| "long_loop ((filename, f) # rest) totals variables =
     bind_exn (variable_name_of filename) (\<lambda>variable_name.
     bind_exn (long_frame variable_name filename f) (\<lambda>d.
     long_loop rest (totals @ [d]) (variables @ [variable_name])))"

definition concatenate_variables_long :: "cache_dir \<Rightarrow> exn + frame \<times> string list" where
  "concatenate_variables_long dir =
     bind_exn (listdir dir) (\<lambda>files.
     bind_exn (long_loop files [] []) (\<lambda>(totals, variables).
     bind_exn (pd_concat totals) (\<lambda>stacked.
     Inr (stacked, variables))))"

text \<open>
  The body of the loop of \<^verbatim>\<open>concatenate_variables_wide\<close> from \<^verbatim>\<open>read_feather\<close> to the
  \<^verbatim>\<open>drop\<close>: the frame that seeds \<^verbatim>\<open>total\<close> or is joined to it.
\<close>

definition wide_frame :: "string \<Rightarrow> string \<Rightarrow> cache_file \<Rightarrow> exn + frame" where
  "wide_frame variable_name filename f =
     bind_exn (read_feather filename f) (\<lambda>d0.
     let d = rename_column d0 ''value'' variable_name in
     bind_exn (get_column d ''state'') (\<lambda>st.
     bind_exn (get_column d GEOGRAPHY) (\<lambda>geo.
     drop_columns (set_column d ''unique_id'' (str_add st geo))
       [''state'', GEOGRAPHY, ''year'', ''descr''])))"

fun wide_loop ::
  "(string \<times> cache_file) list \<Rightarrow> frame option \<Rightarrow> string list \<Rightarrow> exn + frame option \<times> string list" where
  "wide_loop [] total_frame variables = Inr (total_frame, variables)"
| "wide_loop ((filename, f) # rest) total_frame variables =
     bind_exn (variable_name_of filename) (\<lambda>variable_name.
     bind_exn (wide_frame variable_name filename f) (\<lambda>d.
     bind_exn (case total_frame of
                 None \<Rightarrow> select_columns d [''unique_id'', variable_name]
               | Some t \<Rightarrow> merge_left t d ''unique_id'') (\<lambda>t'.
     wide_loop rest (Some t') (variables @ [variable_name]))))"

definition concatenate_variables_wide :: "cache_dir \<Rightarrow> exn + frame option \<times> string list" where
  "concatenate_variables_wide dir =
     bind_exn (listdir dir) (\<lambda>files. wide_loop files None [])"

section \<open>Fetch phase\<close>

text \<open>
  The outside world of the fetch loop: what \<^verbatim>\<open>CensusObj.acs5.get\<close> answers for a
  variable and a year (the rows of the response, or the exception it raises), and
  whether a file of a given name can be written.
\<close>

record api_row =
  a_state :: string
  a_geo :: string
  a_value :: "int option"

record env =
  census :: "string \<Rightarrow> int \<Rightarrow> exn + api_row list"
  writable :: "string \<Rightarrow> bool"

text \<open>A row of the variable catalogue: \<^verbatim>\<open>Name\<close>, \<^verbatim>\<open>Predicate Type\<close>, \<^verbatim>\<open>Label\<close>.\<close>

record acs_var =
  v_name :: string
  v_type :: string
  v_label :: string

definition get_acs_variable ::
  "string \<Rightarrow> int \<Rightarrow> string \<Rightarrow> (string \<Rightarrow> int \<Rightarrow> exn + api_row list) \<Rightarrow> exn + acs_row list" where
  "get_acs_variable var_id year descr CensusObj =
     bind_exn (CensusObj var_id year) (\<lambda>req.
     Inr (map (\<lambda>row. \<lparr>r_state = a_state row, r_geo = a_geo row, r_year = year,
                       r_descr = descr, r_value = a_value row\<rparr>) req))"

text \<open>\<^verbatim>\<open>f"{var}--{YEAR}.feather"\<close>.\<close>

definition cache_name :: "string \<Rightarrow> int \<Rightarrow> string" where
  "cache_name var year = var @ ''--'' @ str_int year @ ''.feather''"

text \<open>
  \<^verbatim>\<open>feather.write_feather(d, fp)\<close> into the cache directory: a file of that name is
  replaced, otherwise the file is new. A write that raises leaves the directory as it
  was.
\<close>

definition write_feather :: "(string \<Rightarrow> bool) \<Rightarrow> cache_dir \<Rightarrow> string \<Rightarrow> acs_row list \<Rightarrow> exn + cache_dir" where
  "write_feather can_write dir fp d =
     (case dir of
        NoDir \<Rightarrow> Inl (WriteError fp)
      | Listing files \<Rightarrow>
          if can_write fp then Inr (Listing (AList.update fp (RecordSet d) files))
          else Inl (WriteError fp))"

text \<open>
  \<^verbatim>\<open>acs_vars.loc[acs_vars.Name==var, "Label"].item()\<close>: \<^verbatim>\<open>ValueError\<close> unless exactly
  one row of the catalogue has that name.
\<close>

definition label_item :: "acs_var list \<Rightarrow> string \<Rightarrow> exn + string" where
  "label_item acs_vars var =
     (case map v_label (filter (\<lambda>r. v_name r = var) acs_vars) of
        [l] \<Rightarrow> Inr l
      | _ \<Rightarrow> Inl ValueError)"

text \<open>
  The state of a run: the cache directory, the variables a remote query was issued for,
  in order, and the lines the \<^verbatim>\<open>except\<close> branch printed.
\<close>

datatype out_line = VariableFailed string | ErrorText exn

record run_state =
  cache :: cache_dir
  queried :: "string list"
  printed :: "out_line list"

text \<open>
  The loop \<^verbatim>\<open>for i, var in enumerate(var_names)\<close>. The label is looked up outside the
  \<^verbatim>\<open>try\<close>, so its exception ends the run; what the \<^verbatim>\<open>try\<close> block raises is printed
  and the loop goes on. The progress line of every hundredth variable is left out.
\<close>

fun scrape_loop ::
  "env \<Rightarrow> acs_var list \<Rightarrow> int \<Rightarrow> string set \<Rightarrow> string list \<Rightarrow> run_state \<Rightarrow> run_state \<times> exn option" where
  "scrape_loop ev acs_vars year completed_vars [] st = (st, None)"
| "scrape_loop ev acs_vars year completed_vars (var # rest) st =
     (if var \<in> completed_vars then scrape_loop ev acs_vars year completed_vars rest st
      else
        (case label_item acs_vars var of
           Inl e \<Rightarrow> (st, Some e)
         | Inr var_descr \<Rightarrow>
             (case bind_exn (get_acs_variable var year var_descr (census ev)) (\<lambda>d.
                     write_feather (writable ev) (cache st) (cache_name var year) d) of
                Inl e \<Rightarrow>
                  scrape_loop ev acs_vars year completed_vars rest
                    (st\<lparr>queried := queried st @ [var],
                        printed := printed st @ [VariableFailed var, ErrorText e]\<rparr>)
              | Inr dir' \<Rightarrow>
                  scrape_loop ev acs_vars year completed_vars rest
                    (st\<lparr>cache := dir', queried := queried st @ [var]\<rparr>))))"

text \<open>\<^verbatim>\<open>os.makedirs(TEMP_DIR, exist_ok=True)\<close>.\<close>

definition makedirs :: "cache_dir \<Rightarrow> cache_dir" where
  "makedirs dir = (case dir of NoDir \<Rightarrow> Listing [] | Listing files \<Rightarrow> Listing files)"

text \<open>
  The names the loop runs over: \<^verbatim>\<open>var_names\<close> is a list of the set of these, in the
  order Python happens to enumerate the set.
\<close>

definition numeric_names :: "acs_var list \<Rightarrow> string set" where
  "numeric_names acs_vars =
     set (map v_name (filter (\<lambda>r. v_type r \<in> {''int'', ''float''}) acs_vars))"

text \<open>
  The main program up to the end of the \<^verbatim>\<open>if SCRAPE_VARS\<close> block, with
  \<^verbatim>\<open>SCRAPE_VARS = True\<close>.
\<close>

definition fetch_phase ::
  "env \<Rightarrow> acs_var list \<Rightarrow> string list \<Rightarrow> int \<Rightarrow> cache_dir \<Rightarrow> run_state \<times> exn option" where
  "fetch_phase ev acs_vars var_names year dir =
     (let st = \<lparr>cache = makedirs dir, queried = [], printed = []\<rparr>
      in case get_completed_vars (cache st) year of
           Inl e \<Rightarrow> (st, Some e)
         | Inr completed_vars \<Rightarrow> scrape_loop ev acs_vars year completed_vars var_names st)"

section \<open>Merge phase\<close>







section \<open>Vocabulary of the properties\<close>

text \<open>The number a string of decimal digits stands for, read from the left.\<close>

definition dec_val :: "nat \<Rightarrow> string \<Rightarrow> nat" where
  "dec_val acc s = foldl (\<lambda>a c. 10 * a + digit_val c) acc s"

text \<open>\<^verbatim>\<open>s.endswith("-")\<close>.\<close>

definition ends_with_dash :: "string \<Rightarrow> bool" where
  "ends_with_dash s = (s \<noteq> [] \<and> last s = CHR ''-'')"

text \<open>The rows of a cache file; an unreadable file has none.\<close>

definition records :: "cache_file \<Rightarrow> acs_row list" where
  "records f = (case f of Unreadable \<Rightarrow> [] | RecordSet rs \<Rightarrow> rs)"

text \<open>
  The variable identifier the merge loops derive from a file name: the part before the
  first \<^verbatim>\<open>--\<close>.
\<close>

definition filename_variable :: "string \<Rightarrow> string" where
  "filename_variable filename = hd (py_split (CHR ''-'') ''-'' filename)"

text \<open>
  The geography key of a cached row: state code and sub-geography code, concatenated.
\<close>

definition unique_id_of :: "acs_row \<Rightarrow> string" where
  "unique_id_of r = r_state r @ r_geo r"

text \<open>The long-form row of a cached row of the variable \<open>variable\<close>.\<close>

definition long_row :: "string \<Rightarrow> acs_row \<Rightarrow> (string \<times> cell) list" where
  "long_row variable r =
     [(''value'', cell_of_value (r_value r)), (''unique_id'', Text (unique_id_of r)),
      (''variable'', Text variable)]"


text \<open>
  The keys that stand in the \<^verbatim>\<open>unique_id\<close> column of a frame.
\<close>

definition unique_ids :: "frame \<Rightarrow> cell set" where
  "unique_ids t = set (map (\<lambda>r. cell_at r ''unique_id'') (rows t))"


text \<open>The labels a cached table and the merge already use.\<close>

definition reserved_labels :: "string set" where
  "reserved_labels = {''state'', GEOGRAPHY, ''year'', ''descr'', ''unique_id''}"

text \<open>The row of the wide merge's per-file frame for a cached row.\<close>

definition wide_row :: "string \<Rightarrow> acs_row \<Rightarrow> (string \<times> cell) list" where
  "wide_row variable r = [(variable, cell_of_value (r_value r)), (''unique_id'', Text (unique_id_of r))]"

text \<open>The content of the file of a given name in a directory, if there is one.\<close>

definition file_at :: "cache_dir \<Rightarrow> string \<Rightarrow> cache_file option" where
  "file_at dir filename = (case dir of NoDir \<Rightarrow> None | Listing files \<Rightarrow> map_of files filename)"

text \<open>A disk on which every write succeeds.\<close>

definition always_writable :: "string \<Rightarrow> bool" where
  "always_writable fp = True"

text \<open>A cached row of the examples, by state code, tract code and number.\<close>

definition cached :: "string \<Rightarrow> string \<Rightarrow> int option \<Rightarrow> acs_row" where
  "cached s g v = \<lparr>r_state = s, r_geo = g, r_year = 2020, r_descr = ''label'', r_value = v\<rparr>"

text \<open>
  The row the remote source of the examples answers with, as it is cached for 2021, and
  an older cached row for the same geography.
\<close>

definition fetched_row :: acs_row where
  "fetched_row = \<lparr>r_state = ''1'', r_geo = ''01'', r_year = 2021, r_descr = ''Total'', r_value = Some 5\<rparr>"

definition old_row :: acs_row where
  "old_row = \<lparr>r_state = ''1'', r_geo = ''01'', r_year = 2021, r_descr = ''Total'', r_value = Some 4\<rparr>"



text \<open>
  The \<^verbatim>\<open>try\<close> block of the fetch loop raises for a variable: the
  remote query raises, or the cache file cannot be written.
\<close>

definition fetch_fails :: "env \<Rightarrow> int \<Rightarrow> string \<Rightarrow> bool" where
  "fetch_fails ev year var = (isl (census ev var year) \<or> \<not> writable ev (cache_name var year))"


text \<open>
  The outside world of the examples: a remote source that answers every query with one
  row, one that fails for the variable \<^verbatim>\<open>B\<close>, a disk that refuses
  the cache file of \<^verbatim>\<open>C\<close> for 2021, and a catalogue that lists
  the given names once each.
\<close>

definition census_ok :: "string \<Rightarrow> int \<Rightarrow> exn + api_row list" where
  "census_ok var year = Inr [\<lparr>a_state = ''1'', a_geo = ''01'', a_value = Some 5\<rparr>]"



definition env_ok :: env where
  "env_ok = \<lparr>census = census_ok, writable = always_writable\<rparr>"


definition catalogue_of :: "string list \<Rightarrow> acs_var list" where
  "catalogue_of names = map (\<lambda>n. \<lparr>v_name = n, v_type = ''int'', v_label = ''Total''\<rparr>) names"

text \<open>The row of the table that the first file seeds.\<close>

definition seed_row :: "string \<Rightarrow> acs_row \<Rightarrow> (string \<times> cell) list" where
  "seed_row variable r = [(''unique_id'', Text (unique_id_of r)), (variable, cell_of_value (r_value r))]"

text \<open>
  Left outer join of one row of the table with the record set of a further variable: the
  row is paired with every cached row of the same key, or extended by a missing cell
  when there is none.
\<close>

definition left_join_rows ::
  "string \<Rightarrow> acs_row list \<Rightarrow> (string \<times> cell) list \<Rightarrow> (string \<times> cell) list list" where
  "left_join_rows variable rs l =
     (case filter (\<lambda>b. Text (unique_id_of b) = cell_at l ''unique_id'') rs of
        [] \<Rightarrow> [l @ [(variable, Missing)]]
      | ms \<Rightarrow> map (\<lambda>b. l @ [(variable, cell_of_value (r_value b))]) ms)"

text \<open>The rows of the wide form: the table is joined with one file after the other.\<close>

fun wide_rows :: "(string \<times> cache_file) list \<Rightarrow> (string \<times> cell) list list \<Rightarrow> (string \<times> cell) list list" where
  "wide_rows [] table = table"
| "wide_rows (e # rest) table =
     wide_rows rest (concat (map (left_join_rows (filename_variable (fst e)) (records (snd e))) table))"

text \<open>
  A listing of record sets whose variable identifiers are pairwise different and none of
  the labels the merge uses itself, so that no two columns of the wide form share a
  label.
\<close>

definition plain_names :: "(string \<times> cache_file) list \<Rightarrow> bool" where
  "plain_names files =
     (distinct (map (\<lambda>e. filename_variable (fst e)) files) \<and>
      (\<forall>e \<in> set files. snd e \<noteq> Unreadable \<and> filename_variable (fst e) \<notin> reserved_labels))"

section \<open>Facts about the string functions\<close>

lemma py_split_nonempty: "py_split d ds s \<noteq> []"
  by (induction d ds s rule: py_split.induct) (auto split: list.splits)

lemma is_digit_digit_char: "k < 10 \<Longrightarrow> is_digit (digit_char k)"
  by (simp add: is_digit_def digit_char_def)

lemma digit_val_digit_char: "k < 10 \<Longrightarrow> digit_val (digit_char k) = k"
  by (simp add: digit_val_def digit_char_def)

lemma str_nat_digits: "\<forall>c \<in> set (str_nat n). is_digit c"
proof (induction n rule: str_nat.induct)
  case (1 n)
  show ?case
  proof (cases "n < 10")
    case True
    then show ?thesis by (subst str_nat.simps) (simp add: is_digit_digit_char)
  next
    case False
    with "1.IH" have "\<forall>c \<in> set (str_nat (n div 10)). is_digit c" by simp
    with False show ?thesis by (subst str_nat.simps) (simp add: is_digit_digit_char)
  qed
qed

lemma str_nat_nonempty: "str_nat n \<noteq> []"
  by (subst str_nat.simps) simp

lemma dec_val_str_nat: "dec_val 0 (str_nat n) = n"
proof (induction n rule: str_nat.induct)
  case (1 n)
  show ?case
  proof (cases "n < 10")
    case True
    then show ?thesis by (subst str_nat.simps) (simp add: dec_val_def digit_val_digit_char)
  next
    case False
    with "1.IH" have "dec_val 0 (str_nat (n div 10)) = n div 10" by simp
    with False show ?thesis
      by (subst str_nat.simps) (simp add: dec_val_def digit_val_digit_char)
  qed
qed

lemma digits_from_digits:
  "\<forall>c \<in> set s. is_digit c \<Longrightarrow> digits_from acc s = Some (dec_val acc s)"
  by (induction s arbitrary: acc) (simp_all add: dec_val_def)

lemma py_digits_str_nat: "py_digits (str_nat n) = Some n"
proof (cases "str_nat n")
  case Nil
  then show ?thesis using str_nat_nonempty by simp
next
  case (Cons c cs)
  have dig: "\<forall>c \<in> set (c # cs). is_digit c" using str_nat_digits [of n] Cons by simp
  have "dec_val 0 (c # cs) = n" using dec_val_str_nat [of n] Cons by simp
  then have "dec_val (digit_val c) cs = n" by (simp add: dec_val_def)
  with dig Cons show ?thesis by (simp add: py_digits_def digits_from_digits)
qed

lemma is_digit_not_space: "is_digit c \<Longrightarrow> \<not> is_space c"
  by (auto simp: is_digit_def is_space_def)

lemma is_digit_not_special:
  "is_digit c \<Longrightarrow> c \<noteq> CHR ''-'' \<and> c \<noteq> CHR ''.'' \<and> c \<noteq> CHR ''+''"
  by (auto simp: is_digit_def)

lemma py_strip_id:
  "s \<noteq> [] \<Longrightarrow> \<not> is_space (hd s) \<Longrightarrow> \<not> is_space (last s) \<Longrightarrow> py_strip s = s"
proof -
  assume a: "s \<noteq> []" "\<not> is_space (hd s)" "\<not> is_space (last s)"
  then have "dropWhile is_space s = s" by (cases s) simp_all
  moreover have "dropWhile is_space (rev s) = rev s"
    using a by (cases "rev s") (simp_all add: last_rev [symmetric] hd_rev)
  ultimately show ?thesis by (simp add: py_strip_def)
qed

lemma str_nat_hd_last: "is_digit (hd (str_nat n)) \<and> is_digit (last (str_nat n))"
  using str_nat_digits [of n] str_nat_nonempty [of n] by (simp add: hd_in_set last_in_set)

lemma py_int_str_int: "py_int (str_int y) = Some y"
proof (cases "y < 0")
  case True
  let ?s = "CHR ''-'' # str_nat (nat (- y))"
  have "\<not> is_space (CHR ''-'')" by (simp add: is_space_def)
  moreover have "\<not> is_space (last ?s)"
    using str_nat_hd_last [of "nat (- y)"] str_nat_nonempty [of "nat (- y)"]
    by (simp add: is_digit_not_space)
  ultimately have "py_strip ?s = ?s" by (intro py_strip_id) simp_all
  with True show ?thesis
    by (simp add: py_int_def str_int_def py_digits_str_nat)
next
  case False
  let ?s = "str_nat (nat y)"
  obtain c cs where cs: "?s = c # cs" using str_nat_nonempty [of "nat y"] by (cases ?s) auto
  have c: "is_digit c" using str_nat_hd_last [of "nat y"] cs by simp
  have "py_strip ?s = ?s"
    using str_nat_hd_last [of "nat y"] str_nat_nonempty [of "nat y"]
    by (intro py_strip_id) (simp_all add: is_digit_not_space)
  then have "py_int ?s = map_option int (py_digits ?s)"
    using cs c is_digit_not_special [OF c] by (simp add: py_int_def)
  with False show ?thesis by (simp add: str_int_def py_digits_str_nat)
qed

lemma py_split_char_first:
  "d \<notin> set a \<Longrightarrow> py_split d [] (a @ d # rest) = a # py_split d [] rest"
  by (induction a) (auto split: list.splits)

lemma py_split_no_sep:
  "\<not> py_contains (d # ds) s \<Longrightarrow> py_split d ds s = [s]"
  by (induction s) (auto split: list.splits)

lemma py_split_dashes_first:
  "\<not> py_contains ''--'' v \<Longrightarrow> \<not> ends_with_dash v \<Longrightarrow>
   py_split (CHR ''-'') ''-'' (v @ ''--'' @ ys) = v # py_split (CHR ''-'') ''-'' ys"
proof (induction v)
  case Nil
  then show ?case by simp
next
  case (Cons c v)
  have nc: "\<not> py_contains ''--'' v" using Cons.prems by simp
  have ne: "\<not> ends_with_dash v" using Cons.prems by (auto simp: ends_with_dash_def)
  have np: "\<not> prefix ''--'' (c # v @ ''--'' @ ys)"
  proof (cases v)
    case Nil
    with Cons.prems show ?thesis by (auto simp: ends_with_dash_def)
  next
    case (Cons c' v')
    with Cons.prems show ?thesis by auto
  qed
  from Cons.IH [OF nc ne] np show ?case by simp
qed

lemma str_int_chars: "c \<in> set (str_int y) \<Longrightarrow> is_digit c \<or> c = CHR ''-''"
  using str_nat_digits by (auto simp: str_int_def split: if_splits)

lemma no_dot_str_int: "CHR ''.'' \<notin> set (str_int y)"
  using str_int_chars [of "CHR ''.''" y] by (auto simp: is_digit_def)

lemma no_dashes_digits: "\<forall>c \<in> set s. is_digit c \<Longrightarrow> \<not> py_contains (CHR ''-'' # ds) s"
  by (induction s) (auto simp: is_digit_def)

lemma no_dashes_str_int: "\<not> py_contains ''--'' (str_int y)"
proof (cases "y < 0")
  case True
  obtain c cs where cs: "str_nat (nat (- y)) = c # cs"
    using str_nat_nonempty [of "nat (- y)"] by (cases "str_nat (nat (- y))") auto
  have d: "\<forall>c \<in> set (c # cs). is_digit c" using str_nat_digits [of "nat (- y)"] cs by simp
  then have "c \<noteq> CHR ''-''" by (auto simp: is_digit_def)
  with True cs no_dashes_digits [OF d, of "''-''"] show ?thesis by (simp add: str_int_def)
next
  case False
  with no_dashes_digits [OF str_nat_digits, of "''-''" "nat y"] show ?thesis
    by (simp add: str_int_def)
qed

lemma parse_cache_name_roundtrip:
  assumes "\<not> py_contains ''--'' var" and "CHR ''.'' \<notin> set var" and "\<not> ends_with_dash var"
  shows "parse_cache_name (cache_name var year) = Inr (var, year)"
proof -
  let ?stem = "var @ ''--'' @ str_int year"
  have "CHR ''.'' \<notin> set ?stem" using assms(2) no_dot_str_int by simp
  then have "py_split (CHR ''.'') [] (?stem @ CHR ''.'' # ''feather'') = ?stem # py_split (CHR ''.'') [] ''feather''"
    by (rule py_split_char_first)
  then have stem: "py_split (CHR ''.'') [] (cache_name var year) = ?stem # py_split (CHR ''.'') [] ''feather''"
    by (simp add: cache_name_def)
  have "py_split (CHR ''-'') ''-'' ?stem = var # py_split (CHR ''-'') ''-'' (str_int year)"
    using assms(1,3) by (rule py_split_dashes_first)
  also have "py_split (CHR ''-'') ''-'' (str_int year) = [str_int year]"
    using no_dashes_str_int by (rule py_split_no_sep)
  finally have parts: "py_split (CHR ''-'') ''-'' ?stem = [var, str_int year]" .
  then have parts': "py_split (CHR ''-'') ''-'' (var @ CHR ''-'' # CHR ''-'' # str_int year) = [var, str_int year]"
    by simp
  show ?thesis
    unfolding parse_cache_name_def stem by (simp add: parts' py_int_str_int)
qed

lemma cache_name_inj: "cache_name v year = cache_name v' year \<Longrightarrow> v = v'"
  by (simp add: cache_name_def)

section \<open>The completion tracker\<close>

lemma parse_cache_name_error: "parse_cache_name n = Inl e \<Longrightarrow> e = ValueError"
  using py_split_nonempty [of "CHR ''.''" "[]" n]
  by (auto simp: parse_cache_name_def split: list.splits option.splits)

lemma completed_loop_ok:
  "\<forall>n \<in> set names. \<exists>p. parse_cache_name n = Inr p \<Longrightarrow>
   completed_loop year names acc =
     Inr (acc \<union> {v. \<exists>n \<in> set names. parse_cache_name n = Inr (v, year)})"
proof (induction names arbitrary: acc)
  case Nil
  then show ?case by simp
next
  case (Cons n names)
  then obtain v y where p: "parse_cache_name n = Inr (v, y)" by fastforce
  from Cons have rest: "\<forall>n \<in> set names. \<exists>p. parse_cache_name n = Inr p" by simp
  show ?case
  proof (cases "y = year")
    case True
    with p Cons.IH [OF rest] show ?thesis by auto
  next
    case False
    with p Cons.IH [OF rest] show ?thesis by auto
  qed
qed

lemma completed_loop_bad:
  "n \<in> set names \<Longrightarrow> parse_cache_name n = Inl e \<Longrightarrow>
   completed_loop year names acc = Inl ValueError"
proof (induction names arbitrary: acc)
  case Nil
  then show ?case by simp
next
  case (Cons m names)
  show ?case
  proof (cases "parse_cache_name m")
    case (Inl e')
    then show ?thesis using parse_cache_name_error [OF Inl] by simp
  next
    case (Inr p)
    with Cons show ?thesis by (cases p) auto
  qed
qed

lemma scan_result:
  assumes "get_completed_vars (Listing files) year = Inr completed_vars"
  shows "completed_vars = {var. \<exists>e \<in> set files. parse_cache_name (fst e) = Inr (var, year)}"
proof -
  have loop: "completed_loop year (map fst files) {} = Inr completed_vars"
    using assms by (simp add: get_completed_vars_def listdir_def)
  have "\<forall>n \<in> set (map fst files). \<exists>p. parse_cache_name n = Inr p"
  proof (rule ccontr)
    assume "\<not> (\<forall>n \<in> set (map fst files). \<exists>p. parse_cache_name n = Inr p)"
    then obtain n where n: "n \<in> set (map fst files)" "\<forall>p. parse_cache_name n \<noteq> Inr p" by blast
    then obtain e where "parse_cache_name n = Inl e" by (cases "parse_cache_name n") auto
    from completed_loop_bad [OF n(1) this, of year "{}"] loop show False by simp
  qed
  from completed_loop_ok [OF this, of year "{}"] loop show ?thesis by simp
qed

text \<open>
  Claim C4. When every file name of the cache directory parses, the completion tracker
  returns exactly the variable identifiers whose parsed year is the target year;
  identifiers cached under another year are not in the result.
\<close>

theorem completed_is_year_filter:
  assumes "\<forall>e \<in> set files. \<exists>p. parse_cache_name (fst e) = Inr p"
  shows "get_completed_vars (Listing files) year =
           Inr {var. \<exists>e \<in> set files. parse_cache_name (fst e) = Inr (var, year)}"
proof -
  from assms have "\<forall>n \<in> set (map fst files). \<exists>p. parse_cache_name n = Inr p" by simp
  from completed_loop_ok [OF this, of year "{}"] show ?thesis
    by (simp add: get_completed_vars_def listdir_def)
qed

lemma parse_examples:
  "parse_cache_name ''A--2021.ext'' = Inr (''A'', 2021)"
  "parse_cache_name ''B--2020.ext'' = Inr (''B'', 2020)"
  "parse_cache_name ''A--2020.ext'' = Inr (''A'', 2020)"
  by code_simp+

text \<open>
  The example of claim C4: the files \<^verbatim>\<open>A--2021.ext\<close>, \<^verbatim>\<open>B--2020.ext\<close> and
  \<^verbatim>\<open>A--2020.ext\<close> give \<open>{A, B}\<close> for 2020 and \<open>{A}\<close> for 2021.
\<close>

theorem completed_is_year_filter_witness:
  "get_completed_vars (Listing [(''A--2021.ext'', Unreadable), (''B--2020.ext'', Unreadable),
       (''A--2020.ext'', Unreadable)]) 2020 = Inr {''A'', ''B''} \<and>
   get_completed_vars (Listing [(''A--2021.ext'', Unreadable), (''B--2020.ext'', Unreadable),
       (''A--2020.ext'', Unreadable)]) 2021 = Inr {''A''}"
proof -
  let ?files = "[(''A--2021.ext'', Unreadable), (''B--2020.ext'', Unreadable), (''A--2020.ext'', Unreadable)]"
  have ok: "\<forall>e \<in> set ?files. \<exists>p. parse_cache_name (fst e) = Inr p"
    by (simp add: parse_examples)
  have "{var. \<exists>e \<in> set ?files. parse_cache_name (fst e) = Inr (var, 2020)} = {''A'', ''B''}"
    by (auto simp: parse_examples)
  moreover have "{var. \<exists>e \<in> set ?files. parse_cache_name (fst e) = Inr (var, 2021)} = {''A''}"
    by (auto simp: parse_examples)
  ultimately show ?thesis
    using completed_is_year_filter [OF ok, of 2020] completed_is_year_filter [OF ok, of 2021]
    by simp
qed

text \<open>
  Claim C1 says that a file name outside the naming convention is skipped and the scan
  goes on. The scan has no \<^verbatim>\<open>try\<close>: with \<^verbatim>\<open>notes.txt\<close> between two well-formed
  names, the unpacking \<^verbatim>\<open>var, yr = filename.split("--")\<close> raises and
  \<^verbatim>\<open>get_completed_vars\<close> returns nothing.
\<close>

theorem malformed_name_counterexample:
  "get_completed_vars
     (Listing [(''A--2020.feather'', RecordSet []), (''notes.txt'', RecordSet []),
               (''B--2020.feather'', RecordSet [])]) 2020 = Inl ValueError"
  by code_simp

text \<open>
  Claim C1, as the code has it. If some file name of the directory does not parse (the
  part before the first dot does not split into exactly two parts at \<^verbatim>\<open>--\<close>, or the
  second part is not an integer literal), the scan raises \<^verbatim>\<open>ValueError\<close>, whatever
  the other names are and whatever the target year is.
\<close>

theorem malformed_name_aborts_scan:
  assumes "(n, f) \<in> set files" and "parse_cache_name n = Inl e"
  shows "get_completed_vars (Listing files) year = Inl ValueError"
proof -
  from assms(1) have "n \<in> set (map fst files)" by force
  from completed_loop_bad [OF this assms(2)] show ?thesis
    by (simp add: get_completed_vars_def listdir_def)
qed

text \<open>
  The theorem at a directory with one well-formed name and \<^verbatim>\<open>notes.txt\<close>.
\<close>

theorem malformed_name_aborts_scan_witness:
  "(''notes.txt'', Unreadable) \<in> set [(''A--2020.feather'', RecordSet []), (''notes.txt'', Unreadable)] \<and>
   parse_cache_name ''notes.txt'' = Inl ValueError \<and>
   get_completed_vars (Listing [(''A--2020.feather'', RecordSet []), (''notes.txt'', Unreadable)]) 2020
     = Inl ValueError"
proof -
  have m: "(''notes.txt'', Unreadable) \<in> set [(''A--2020.feather'', RecordSet []), (''notes.txt'', Unreadable)]"
    by simp
  have p: "parse_cache_name ''notes.txt'' = Inl ValueError" by code_simp
  from m p malformed_name_aborts_scan [OF m p, of 2020] show ?thesis by simp
qed

section \<open>Writing a cache file and finding it again\<close>

lemma update_names: "fst ` set (AList.update k v al) = insert k (fst ` set al)"
  by (induction al) auto

lemma update_other_entries:
  "e \<in> set (AList.update k v al) \<Longrightarrow> fst e \<noteq> k \<Longrightarrow> e \<in> set al"
  by (induction al) (auto split: if_splits)

text \<open>
  Claim C9 says that a variable identifier without \<^verbatim>\<open>--\<close> and without a dot is found
  again by the completion tracker after its file has been written. The identifier
  \<^verbatim>\<open>A-\<close> has neither, but its file for 2021 is \<^verbatim>\<open>A---2021.feather\<close>, which splits
  at the first two dashes into \<^verbatim>\<open>A\<close> and \<^verbatim>\<open>-2021\<close>: the tracker reads the year
  \<open>-2021\<close> and returns the empty set.
\<close>

theorem trailing_dash_counterexample:
  "\<not> py_contains ''--'' ''A-'' \<and> CHR ''.'' \<notin> set ''A-'' \<and>
   write_feather always_writable (Listing []) (cache_name ''A-'' 2021) [fetched_row]
     = Inr (Listing [(''A---2021.feather'', RecordSet [fetched_row])]) \<and>
   get_completed_vars (Listing [(''A---2021.feather'', RecordSet [fetched_row])]) 2021 = Inr {}"
  by code_simp

text \<open>
  Claim C9, amended. For a variable identifier that contains neither \<^verbatim>\<open>--\<close> nor a dot
  and does not end with a dash, and for every year: once the file
  \<^verbatim>\<open>f"{var}--{year}.feather"\<close> has been written into a cache directory whose other
  file names parse, the completion tracker, run on that directory for the same year,
  returns a set that contains the identifier.
\<close>

theorem cache_name_round_trip:
  assumes "\<not> py_contains ''--'' var" and "CHR ''.'' \<notin> set var" and "\<not> ends_with_dash var"
    and "can_write (cache_name var year)"
    and "\<forall>e \<in> set files. fst e \<noteq> cache_name var year \<longrightarrow> (\<exists>p. parse_cache_name (fst e) = Inr p)"
  shows "\<exists>dir' completed_vars.
           write_feather can_write (Listing files) (cache_name var year) d = Inr dir' \<and>
           get_completed_vars dir' year = Inr completed_vars \<and> var \<in> completed_vars"
proof -
  let ?name = "cache_name var year"
  let ?files = "AList.update ?name (RecordSet d) files"
  have w: "write_feather can_write (Listing files) ?name d = Inr (Listing ?files)"
    using assms(4) by (simp add: write_feather_def)
  have own: "parse_cache_name ?name = Inr (var, year)"
    using assms(1-3) by (rule parse_cache_name_roundtrip)
  have ok: "\<forall>e \<in> set ?files. \<exists>p. parse_cache_name (fst e) = Inr p"
  proof
    fix e assume e: "e \<in> set ?files"
    show "\<exists>p. parse_cache_name (fst e) = Inr p"
    proof (cases "fst e = ?name")
      case True
      with own show ?thesis by simp
    next
      case False
      with e have "e \<in> set files" by (rule update_other_entries)
      with assms(5) False show ?thesis by blast
    qed
  qed
  have "?name \<in> fst ` set ?files" by (simp add: update_names)
  then obtain e where e: "e \<in> set ?files" "fst e = ?name" by auto
  from own e(2) have "parse_cache_name (fst e) = Inr (var, year)" by simp
  with e(1) have "var \<in> {v. \<exists>e \<in> set ?files. parse_cache_name (fst e) = Inr (v, year)}" by blast
  with completed_loop_ok [of "map fst ?files" year "{}"] ok w show ?thesis
    by (simp add: get_completed_vars_def listdir_def)
qed

lemma other_name_parses: "parse_cache_name ''B01001_002E--2020.feather'' = Inr (''B01001_002E'', 2020)"
  by code_simp

text \<open>
  The theorem for the identifier \<^verbatim>\<open>B01001_001E\<close> and the year 2021, written into a
  directory that holds one other file.
\<close>

theorem cache_name_round_trip_witness:
  "\<exists>dir' completed_vars.
     write_feather always_writable (Listing [(''B01001_002E--2020.feather'', RecordSet [cached ''1'' ''01'' (Some 5)])])
       (cache_name ''B01001_001E'' 2021) [fetched_row] = Inr dir' \<and>
     get_completed_vars dir' 2021 = Inr completed_vars \<and> ''B01001_001E'' \<in> completed_vars"
proof -
  have a: "\<not> py_contains ''--'' ''B01001_001E''" by code_simp
  have b: "CHR ''.'' \<notin> set ''B01001_001E''" by simp
  have c: "\<not> ends_with_dash ''B01001_001E''" by (simp add: ends_with_dash_def)
  have d: "always_writable (cache_name ''B01001_001E'' 2021)" by (simp add: always_writable_def)
  have e: "\<forall>e \<in> set [(''B01001_002E--2020.feather'', RecordSet [cached ''1'' ''01'' (Some 5)])].
             fst e \<noteq> cache_name ''B01001_001E'' 2021 \<longrightarrow> (\<exists>p. parse_cache_name (fst e) = Inr p)"
    by (simp add: other_name_parses)
  from cache_name_round_trip [where can_write = always_writable and year = 2021, OF a b c d e]
  show ?thesis .
qed

section \<open>The long merge\<close>

lemma variable_name_of_eq: "variable_name_of n = Inr (filename_variable n)"
  using py_split_nonempty [of "CHR ''-''" "''-''" n]
  by (cases "py_split (CHR ''-'') ''-'' n") (simp_all add: variable_name_of_def filename_variable_def)

lemma long_frame_RecordSet:
  "long_frame v n (RecordSet rs) =
     Inr \<lparr>columns = [''value'', ''unique_id'', ''variable''], rows = map (long_row v) rs\<rparr>"
  by (simp add: long_frame_def bind_exn_def read_feather_def get_column_def GEOGRAPHY_def
      set_column_def drop_columns_def str_add_def row_of_def cell_at_def astype_str_def
      long_row_def unique_id_of_def zip_map_map zip_same_conv_map zip_replicate2 map_replicate_const [symmetric] o_def)

lemma long_frame_Unreadable: "long_frame v n Unreadable = Inl (ReadError n)"
  by (simp add: long_frame_def bind_exn_def read_feather_def)


lemma long_loop_unreadable:
  "(n, Unreadable) \<in> set files \<Longrightarrow>
   \<exists>m. (m, Unreadable) \<in> set files \<and> long_loop files totals variables = Inl (ReadError m)"
proof (induction files arbitrary: totals variables)
  case Nil
  then show ?case by simp
next
  case (Cons e files)
  obtain m f where e: "e = (m, f)" by (cases e)
  show ?case
  proof (cases f)
    case Unreadable
    then show ?thesis
      by (auto simp: e variable_name_of_eq long_frame_Unreadable bind_exn_def)
  next
    case (RecordSet rs)
    with Cons.prems e have "(n, Unreadable) \<in> set files" by auto
    from Cons.IH [OF this] show ?thesis
      by (auto simp: e RecordSet variable_name_of_eq long_frame_RecordSet bind_exn_def)
  qed
qed








section \<open>The wide merge\<close>

lemma wide_frame_Unreadable: "wide_frame v n Unreadable = Inl (ReadError n)"
  by (simp add: wide_frame_def bind_exn_def read_feather_def)

lemma wide_frame_unique_ids:
  "\<exists>d. wide_frame v n (RecordSet rs) = Inr d \<and> ''unique_id'' \<in> set (columns d) \<and>
       map (\<lambda>r. cell_at r ''unique_id'') (rows d) = map (\<lambda>r. Text (unique_id_of r)) rs"
  by (simp add: wide_frame_def bind_exn_def read_feather_def get_column_def GEOGRAPHY_def
      set_column_def drop_columns_def rename_column_def str_add_def row_of_def cell_at_def
      astype_str_def unique_id_of_def zip_map_map zip_same_conv_map o_def Let_def)

lemma wide_frame_RecordSet:
  "v \<notin> reserved_labels \<Longrightarrow>
   wide_frame v n (RecordSet rs) = Inr \<lparr>columns = [v, ''unique_id''], rows = map (wide_row v) rs\<rparr>"
  by (auto simp: wide_frame_def bind_exn_def read_feather_def get_column_def GEOGRAPHY_def
      set_column_def drop_columns_def rename_column_def str_add_def row_of_def cell_at_def
      astype_str_def unique_id_of_def zip_map_map zip_same_conv_map o_def Let_def
      reserved_labels_def wide_row_def)

lemma select_columns_unique_ids:
  "select_columns d [''unique_id'', v] = Inr t \<Longrightarrow>
   columns t = [''unique_id'', v] \<and> unique_ids t = unique_ids d"
proof -
  assume a: "select_columns d [''unique_id'', v] = Inr t"
  then have t: "t = \<lparr>columns = [''unique_id'', v],
                    rows = map (\<lambda>r. [(''unique_id'', cell_at r ''unique_id''), (v, cell_at r v)]) (rows d)\<rparr>"
    by (simp add: select_columns_def split: if_splits)
  have "map (\<lambda>r. cell_at r ''unique_id'') (rows t) = map (\<lambda>r. cell_at r ''unique_id'') (rows d)"
    by (simp add: t o_def cell_at_def)
  then show ?thesis by (simp add: unique_ids_def t)
qed

lemma suffixed_unique_id:
  "''unique_id'' \<notin> set overlap \<Longrightarrow> sfx \<in> {''_x'', ''_y''} \<Longrightarrow>
   (suffixed overlap sfx c = ''unique_id'') = (c = ''unique_id'')"
proof -
  assume a: "''unique_id'' \<notin> set overlap" "sfx \<in> {''_x'', ''_y''}"
  have "c @ sfx \<noteq> ''unique_id''"
  proof
    assume "c @ sfx = ''unique_id''"
    then have "last (c @ sfx) = last ''unique_id''" by simp
    with a(2) show False by auto
  qed
  with a(1) show ?thesis by (auto simp: suffixed_def)
qed

lemma map_of_relabel_unique_id:
  assumes "\<And>c. (f c = ''unique_id'') = (c = ''unique_id'')"
  shows "map_of (relabel f r) ''unique_id'' = map_of r ''unique_id''"
proof -
  have flip: "(''unique_id'' = f c) = (c = ''unique_id'')" for c
    using assms [of c] by auto
  show ?thesis by (induction r) (auto simp: relabel_def assms flip)
qed

lemma map_of_absent: "k \<notin> fst ` set r \<Longrightarrow> map_of r k = None"
  by (simp add: map_of_eq_None_iff)

lemma merge_left_unique_ids:
  assumes "merge_left left right ''unique_id'' = Inr t"
  shows "''unique_id'' \<in> set (columns t) \<and> unique_ids t = unique_ids left"
proof -
  define rcols where "rcols = filter (\<lambda>c. c \<noteq> ''unique_id'') (columns right)"
  define overlap where "overlap = filter (\<lambda>c. c \<in> set rcols) (columns left)"
  define lname where "lname = suffixed overlap ''_x''"
  define rname where "rname = suffixed overlap ''_y''"
  define g where "g = join_rows lname rname rcols ''unique_id'' (rows right)"
  have key: "''unique_id'' \<in> set (columns left)"
    using assms by (auto simp: merge_left_def split: if_splits)
  have t: "t = \<lparr>columns = map lname (columns left) @ map rname rcols,
                 rows = concat (map g (rows left))\<rparr>"
    using assms unfolding merge_left_def Let_def rcols_def overlap_def lname_def rname_def g_def
    by (simp split: if_splits)
  have no: "''unique_id'' \<notin> set overlap" by (auto simp: overlap_def rcols_def)
  have ln: "(lname c = ''unique_id'') = (c = ''unique_id'')" for c
    unfolding lname_def using no by (rule suffixed_unique_id) simp
  have rn: "(rname c = ''unique_id'') = (c = ''unique_id'')" for c
    unfolding rname_def using no by (rule suffixed_unique_id) simp
  have rn': "(''unique_id'' = rname c) = (c = ''unique_id'')" for c
    using rn [of c] by auto
  have left_part: "map_of (relabel lname l) ''unique_id'' = map_of l ''unique_id''" for l
    using ln by (rule map_of_relabel_unique_id)
  have fill_part: "map_of (map (\<lambda>c. (rname c, Missing)) rcols) ''unique_id'' = None"
    by (rule map_of_absent) (auto simp: rn' rcols_def)
  have right_part: "map_of (relabel rname (filter (\<lambda>(c, v). c \<noteq> ''unique_id'') r)) ''unique_id'' = None" for r
    by (rule map_of_absent) (auto simp: relabel_def rn')
  have same: "cell_at x ''unique_id'' = cell_at l ''unique_id''" if "x \<in> set (g l)" for x l
    using that
    by (auto simp: g_def join_rows_def cell_at_def map_add_def left_part fill_part right_part
        split: list.splits option.splits)
  have nonempty: "g l \<noteq> []" for l
    by (simp add: g_def join_rows_def split: list.splits)
  have "unique_ids t = unique_ids left"
  proof
    show "unique_ids t \<subseteq> unique_ids left"
      using same by (auto simp: unique_ids_def t)
    show "unique_ids left \<subseteq> unique_ids t"
    proof
      fix k assume "k \<in> unique_ids left"
      then obtain l where l: "l \<in> set (rows left)" "k = cell_at l ''unique_id''"
        by (auto simp: unique_ids_def)
      obtain x where x: "x \<in> set (g l)" using nonempty [of l] by (cases "g l") auto
      with same [OF x] l show "k \<in> unique_ids t"
        by (auto simp: unique_ids_def t intro!: image_eqI [where x = x])
    qed
  qed
  moreover have "''unique_id'' \<in> set (columns t)"
  proof -
    have "lname ''unique_id'' = ''unique_id''" using ln [of "''unique_id''"] by simp
    with key have "''unique_id'' \<in> lname ` set (columns left)" by (metis image_eqI)
    then show ?thesis by (simp add: t)
  qed
  ultimately show ?thesis by simp
qed

lemma wide_loop_unique_ids:
  "wide_loop files (Some t) variables = Inr (res, variables') \<Longrightarrow>
   \<exists>t'. res = Some t' \<and> unique_ids t' = unique_ids t"
proof (induction files arbitrary: t variables)
  case Nil
  then show ?case by auto
next
  case (Cons e files)
  obtain n f where e: "e = (n, f)" by (cases e)
  from Cons.prems obtain d t1 where
    step: "merge_left t d ''unique_id'' = Inr t1" and
    rest: "wide_loop files (Some t1) (variables @ [filename_variable n]) = Inr (res, variables')"
    by (auto simp: e variable_name_of_eq bind_exn_def split: sum.splits)
  from Cons.IH [OF rest] merge_left_unique_ids [OF step] show ?case by auto
qed

lemma wide_merge_unique_ids:
  assumes "concatenate_variables_wide (Listing ((n, RecordSet rs) # rest)) = Inr (res, variables)"
  shows "\<exists>t. res = Some t \<and> unique_ids t = (\<lambda>r. Text (unique_id_of r)) ` set rs"
proof -
  obtain d where d: "wide_frame (filename_variable n) n (RecordSet rs) = Inr d"
    and ids: "map (\<lambda>r. cell_at r ''unique_id'') (rows d) = map (\<lambda>r. Text (unique_id_of r)) rs"
    using wide_frame_unique_ids by blast
  from assms d obtain seed where
    seed: "select_columns d [''unique_id'', filename_variable n] = Inr seed" and
    loop: "wide_loop rest (Some seed) [filename_variable n] = Inr (res, variables)"
    by (auto simp: concatenate_variables_wide_def listdir_def variable_name_of_eq bind_exn_def
        split: sum.splits)
  from select_columns_unique_ids [OF seed] have seed_ids: "unique_ids seed = unique_ids d" by simp
  have "unique_ids d = (\<lambda>r. Text (unique_id_of r)) ` set rs"
    unfolding unique_ids_def ids by simp
  with wide_loop_unique_ids [OF loop] seed_ids show ?thesis by auto
qed

lemma select_seed:
  "v \<notin> reserved_labels \<Longrightarrow>
   select_columns \<lparr>columns = [v, ''unique_id''], rows = map (wide_row v) rs\<rparr> [''unique_id'', v] =
     Inr \<lparr>columns = [''unique_id'', v], rows = map (seed_row v) rs\<rparr>"
  by (auto simp: select_columns_def wide_row_def seed_row_def cell_at_def reserved_labels_def)

lemma suffixed_no_overlap: "suffixed [] sfx = (\<lambda>c. c)"
  by (rule ext) (simp add: suffixed_def)

lemma relabel_id: "relabel (\<lambda>c. c) r = r"
  by (induction r) (auto simp: relabel_def)

lemma merge_left_fresh:
  assumes "''unique_id'' \<in> set (columns left)" and "v \<notin> set (columns left)" and "v \<noteq> ''unique_id''"
  shows "merge_left left \<lparr>columns = [v, ''unique_id''], rows = map (wide_row v) rs\<rparr> ''unique_id'' =
           Inr \<lparr>columns = columns left @ [v],
                rows = concat (map (left_join_rows v rs) (rows left))\<rparr>"
proof -
  have overlap: "filter (\<lambda>c. c = v) (columns left) = []"
    using assms(2) by (auto simp: filter_empty_conv)
  have rcols: "filter (\<lambda>c. c \<noteq> ''unique_id'') [v, ''unique_id''] = [v]"
    using assms(3) by simp
  have key: "cell_at (wide_row v b) ''unique_id'' = Text (unique_id_of b)" for b
    using assms(3) by (simp add: wide_row_def cell_at_def)
  have rest: "filter (\<lambda>(c, x). c \<noteq> ''unique_id'') (wide_row v b) = [(v, cell_of_value (r_value b))]" for b
    using assms(3) by (simp add: wide_row_def)
  have matches: "filter (\<lambda>r. cell_at r ''unique_id'' = cell_at l ''unique_id'') (map (wide_row v) rs) =
                 map (wide_row v) (filter (\<lambda>b. Text (unique_id_of b) = cell_at l ''unique_id'') rs)" for l
    by (simp add: filter_map o_def key)
  have row: "join_rows (\<lambda>c. c) (\<lambda>c. c) [v] ''unique_id'' (map (wide_row v) rs) l =
             left_join_rows v rs l" for l
    unfolding join_rows_def matches left_join_rows_def
    by (cases "filter (\<lambda>b. Text (unique_id_of b) = cell_at l ''unique_id'') rs")
       (simp_all add: rest relabel_id)
  have "merge_left left \<lparr>columns = [v, ''unique_id''], rows = map (wide_row v) rs\<rparr> ''unique_id'' =
          Inr \<lparr>columns = map (\<lambda>c. c) (columns left) @ map (\<lambda>c. c) [v],
               rows = concat (map (join_rows (\<lambda>c. c) (\<lambda>c. c) [v] ''unique_id'' (map (wide_row v) rs))
                                  (rows left))\<rparr>"
    unfolding merge_left_def Let_def
    using assms(1,3) by (simp add: overlap suffixed_no_overlap)
  moreover have "join_rows (\<lambda>c. c) (\<lambda>c. c) [v] ''unique_id'' (map (wide_row v) rs) = left_join_rows v rs"
    by (rule ext) (rule row)
  ultimately show ?thesis by simp
qed

lemma wide_loop_sane:
  assumes "\<forall>e \<in> set files. snd e \<noteq> Unreadable"
    and "\<forall>e \<in> set files. filename_variable (fst e) \<notin> reserved_labels"
    and "distinct (vs @ map (\<lambda>e. filename_variable (fst e)) files)"
    and "columns t = ''unique_id'' # vs"
  shows "\<exists>t'. wide_loop files (Some t) variables =
                 Inr (Some t', variables @ map (\<lambda>e. filename_variable (fst e)) files) \<and>
              columns t' = ''unique_id'' # vs @ map (\<lambda>e. filename_variable (fst e)) files \<and>
              rows t' = wide_rows files (rows t)"
  using assms
proof (induction files arbitrary: t vs variables)
  case Nil
  then show ?case by simp
next
  case (Cons e files)
  obtain n f where e: "e = (n, f)" by (cases e)
  with Cons.prems(1) obtain rs where f: "f = RecordSet rs" by (cases f) auto
  let ?v = "filename_variable n"
  have v: "?v \<notin> reserved_labels" using Cons.prems(2) e by simp
  then have vk: "?v \<noteq> ''unique_id''" by (auto simp: reserved_labels_def)
  have fresh: "?v \<notin> set (columns t)" using Cons.prems(3,4) vk e by auto
  have key: "''unique_id'' \<in> set (columns t)" using Cons.prems(4) by simp
  let ?t = "\<lparr>columns = columns t @ [?v], rows = concat (map (left_join_rows ?v rs) (rows t))\<rparr>"
  have step: "wide_loop (e # files) (Some t) variables = wide_loop files (Some ?t) (variables @ [?v])"
    by (simp add: e f variable_name_of_eq bind_exn_def wide_frame_RecordSet [OF v]
        merge_left_fresh [OF key fresh vk])
  have "\<exists>t'. wide_loop files (Some ?t) (variables @ [?v]) =
               Inr (Some t', (variables @ [?v]) @ map (\<lambda>e. filename_variable (fst e)) files) \<and>
             columns t' = ''unique_id'' # (vs @ [?v]) @ map (\<lambda>e. filename_variable (fst e)) files \<and>
             rows t' = wide_rows files (rows ?t)"
  proof (rule Cons.IH)
    show "\<forall>e \<in> set files. snd e \<noteq> Unreadable" using Cons.prems(1) by simp
    show "\<forall>e \<in> set files. filename_variable (fst e) \<notin> reserved_labels" using Cons.prems(2) by simp
    show "distinct ((vs @ [?v]) @ map (\<lambda>e. filename_variable (fst e)) files)"
      using Cons.prems(3) e by simp
    show "columns ?t = ''unique_id'' # vs @ [?v]" using Cons.prems(4) by simp
  qed
  then show ?case unfolding step by (simp add: e f records_def)
qed

lemma wide_merge_plain:
  assumes "plain_names ((n, RecordSet rs) # rest)"
  shows "\<exists>t. concatenate_variables_wide (Listing ((n, RecordSet rs) # rest)) =
               Inr (Some t, map (\<lambda>e. filename_variable (fst e)) ((n, RecordSet rs) # rest)) \<and>
             columns t = ''unique_id'' # map (\<lambda>e. filename_variable (fst e)) ((n, RecordSet rs) # rest) \<and>
             rows t = wide_rows rest (map (seed_row (filename_variable n)) rs)"
proof -
  let ?v = "filename_variable n"
  let ?seed = "\<lparr>columns = [''unique_id'', ?v], rows = map (seed_row ?v) rs\<rparr>"
  have v: "?v \<notin> reserved_labels" using assms by (simp add: plain_names_def)
  have start: "concatenate_variables_wide (Listing ((n, RecordSet rs) # rest)) =
               wide_loop rest (Some ?seed) [?v]"
    by (simp add: concatenate_variables_wide_def listdir_def bind_exn_def variable_name_of_eq
        wide_frame_RecordSet [OF v] select_seed [OF v])
  have "\<exists>t'. wide_loop rest (Some ?seed) [?v] =
               Inr (Some t', [?v] @ map (\<lambda>e. filename_variable (fst e)) rest) \<and>
             columns t' = ''unique_id'' # [?v] @ map (\<lambda>e. filename_variable (fst e)) rest \<and>
             rows t' = wide_rows rest (rows ?seed)"
  proof (rule wide_loop_sane)
    show "\<forall>e \<in> set rest. snd e \<noteq> Unreadable" using assms by (simp add: plain_names_def)
    show "\<forall>e \<in> set rest. filename_variable (fst e) \<notin> reserved_labels"
      using assms by (simp add: plain_names_def)
    show "distinct ([?v] @ map (\<lambda>e. filename_variable (fst e)) rest)"
      using assms by (simp add: plain_names_def)
    show "columns ?seed = ''unique_id'' # [?v]" by simp
  qed
  then show ?thesis unfolding start by simp
qed

text \<open>
  Claim C3. Let the first file of the listing be a record set. Whenever the wide merge
  returns, its result is a table whose \<^verbatim>\<open>unique_id\<close> column holds exactly the
  geography keys of that first file: a key of a later file that the first file lacks
  is absent, and no key of the first file is lost. When moreover all files are record
  sets with plain names, the wide merge does return: the table has the column
  \<^verbatim>\<open>unique_id\<close> followed by one column for each variable in the order of the listing,
  and its rows are the rows seeded by the first file (\<^verbatim>\<open>unique_id\<close>, first variable),
  joined with every later file in turn by a left outer join on \<^verbatim>\<open>unique_id\<close>, where
  a row without a match gets a missing cell for the new variable.
\<close>

theorem wide_merge_keeps_first_files_rows:
  "(concatenate_variables_wide (Listing ((n, RecordSet rs) # rest)) = Inr (res, variables) \<longrightarrow>
      (\<exists>t. res = Some t \<and> unique_ids t = (\<lambda>r. Text (unique_id_of r)) ` set rs)) \<and>
   (plain_names ((n, RecordSet rs) # rest) \<longrightarrow>
      (\<exists>t. concatenate_variables_wide (Listing ((n, RecordSet rs) # rest)) =
              Inr (Some t, map (\<lambda>e. filename_variable (fst e)) ((n, RecordSet rs) # rest)) \<and>
            columns t = ''unique_id'' # map (\<lambda>e. filename_variable (fst e)) ((n, RecordSet rs) # rest) \<and>
            rows t = wide_rows rest (map (seed_row (filename_variable n)) rs) \<and>
            unique_ids t = (\<lambda>r. Text (unique_id_of r)) ` set rs))"
proof (intro conjI impI)
  assume "concatenate_variables_wide (Listing ((n, RecordSet rs) # rest)) = Inr (res, variables)"
  then show "\<exists>t. res = Some t \<and> unique_ids t = (\<lambda>r. Text (unique_id_of r)) ` set rs"
    by (rule wide_merge_unique_ids)
next
  assume "plain_names ((n, RecordSet rs) # rest)"
  from wide_merge_plain [OF this] obtain t where
    t: "concatenate_variables_wide (Listing ((n, RecordSet rs) # rest)) =
          Inr (Some t, map (\<lambda>e. filename_variable (fst e)) ((n, RecordSet rs) # rest))"
       "columns t = ''unique_id'' # map (\<lambda>e. filename_variable (fst e)) ((n, RecordSet rs) # rest)"
       "rows t = wide_rows rest (map (seed_row (filename_variable n)) rs)"
    by blast
  from wide_merge_unique_ids [OF t(1)] have "unique_ids t = (\<lambda>r. Text (unique_id_of r)) ` set rs"
    by simp
  with t show "\<exists>t. concatenate_variables_wide (Listing ((n, RecordSet rs) # rest)) =
              Inr (Some t, map (\<lambda>e. filename_variable (fst e)) ((n, RecordSet rs) # rest)) \<and>
            columns t = ''unique_id'' # map (\<lambda>e. filename_variable (fst e)) ((n, RecordSet rs) # rest) \<and>
            rows t = wide_rows rest (map (seed_row (filename_variable n)) rs) \<and>
            unique_ids t = (\<lambda>r. Text (unique_id_of r)) ` set rs"
    by blast
qed

lemma example_names:
  "filename_variable ''V1--2020.feather'' = ''V1''" "filename_variable ''V2--2020.feather'' = ''V2''"
  by (simp_all add: filename_variable_def)

lemma example_plain:
  "plain_names [(''V1--2020.feather'', RecordSet [cached ''1'' ''01'' (Some 5), cached ''1'' ''02'' (Some 6)]),
                (''V2--2020.feather'', RecordSet [cached ''1'' ''02'' (Some 7), cached ''1'' ''03'' (Some 8)])]"
  by (simp add: plain_names_def example_names reserved_labels_def GEOGRAPHY_def)

text \<open>
  The example of claim C3: the first variable covers 101 and 102, the second 102 and
  103. The result has the rows 101 and 102; the second variable is missing at 101, and
  103 does not appear.
\<close>

theorem wide_merge_keeps_first_files_rows_witness:
  "\<exists>t. concatenate_variables_wide
     (Listing [(''V1--2020.feather'', RecordSet [cached ''1'' ''01'' (Some 5), cached ''1'' ''02'' (Some 6)]),
               (''V2--2020.feather'', RecordSet [cached ''1'' ''02'' (Some 7), cached ''1'' ''03'' (Some 8)])])
     = Inr (Some t, [''V1'', ''V2'']) \<and>
     columns t = [''unique_id'', ''V1'', ''V2''] \<and>
     rows t = [[(''unique_id'', Text ''101''), (''V1'', Number 5), (''V2'', Missing)],
               [(''unique_id'', Text ''102''), (''V1'', Number 6), (''V2'', Number 7)]] \<and>
     unique_ids t = {Text ''101'', Text ''102''}"
proof -
  let ?rs = "[cached ''1'' ''01'' (Some 5), cached ''1'' ''02'' (Some 6)]"
  let ?rest = "[(''V2--2020.feather'', RecordSet [cached ''1'' ''02'' (Some 7), cached ''1'' ''03'' (Some 8)])]"
  have r: "wide_rows ?rest (map (seed_row (filename_variable ''V1--2020.feather'')) ?rs) =
           [[(''unique_id'', Text ''101''), (''V1'', Number 5), (''V2'', Missing)],
            [(''unique_id'', Text ''102''), (''V1'', Number 6), (''V2'', Number 7)]]"
    by (simp add: example_names seed_row_def left_join_rows_def records_def cached_def
        unique_id_of_def cell_at_def cell_of_value_def)
  have i: "(\<lambda>r. Text (unique_id_of r)) ` set ?rs = {Text ''101'', Text ''102''}"
    by (simp add: unique_id_of_def cached_def)
  from wide_merge_keeps_first_files_rows [of "''V1--2020.feather''" ?rs ?rest] example_plain
  show ?thesis unfolding r i by (simp add: example_names)
qed

section \<open>Empty directories and unreadable files\<close>

text \<open>
  Claim C10. On an empty cache directory the wide merge returns no dataset at all: its
  result is \<^verbatim>\<open>None\<close> together with the empty list of variables, not a table with
  zero rows. The long merge raises instead: \<^verbatim>\<open>pd.concat\<close> of the empty list is a
  \<^verbatim>\<open>ValueError\<close>.
\<close>

theorem empty_directory_merges:
  "concatenate_variables_wide (Listing []) = Inr (None, []) \<and>
   concatenate_variables_long (Listing []) = Inl ValueError"
  by (simp add: concatenate_variables_wide_def concatenate_variables_long_def listdir_def
      bind_exn_def pd_concat_def)

lemma wide_loop_unreadable:
  "(n, Unreadable) \<in> set files \<Longrightarrow> \<exists>e. wide_loop files total_frame variables = Inl e"
proof (induction files arbitrary: total_frame variables)
  case Nil
  then show ?case by simp
next
  case (Cons e files)
  obtain m f where e: "e = (m, f)" by (cases e)
  show ?case
  proof (cases f)
    case Unreadable
    then show ?thesis
      by (simp add: e variable_name_of_eq wide_frame_Unreadable bind_exn_def)
  next
    case (RecordSet rs)
    with Cons.prems e have "(n, Unreadable) \<in> set files" by auto
    from Cons.IH [OF this] show ?thesis
      by (auto simp: e variable_name_of_eq bind_exn_def split: sum.splits)
  qed
qed

text \<open>
  Claim C2 says that both merges skip an unreadable file and still return a dataset
  built from the readable ones. Neither loop has a \<^verbatim>\<open>try\<close>: with one readable and
  one unreadable file both merges end with the exception of \<^verbatim>\<open>read_feather\<close>.
\<close>

theorem unreadable_file_counterexample:
  "concatenate_variables_long
     (Listing [(''V1--2020.feather'', RecordSet [cached ''1'' ''01'' (Some 5)]), (''V2--2020.feather'', Unreadable)])
     = Inl (ReadError ''V2--2020.feather'') \<and>
   concatenate_variables_wide
     (Listing [(''V1--2020.feather'', RecordSet [cached ''1'' ''01'' (Some 5)]), (''V2--2020.feather'', Unreadable)])
     = Inl (ReadError ''V2--2020.feather'')"
  by code_simp

text \<open>
  Claim C2, as the code has it. If the cache directory holds an unreadable file, the
  long merge raises the read error of such a file and the wide merge raises as well:
  neither returns a dataset. A directory that cannot be listed is an \<^verbatim>\<open>OSError\<close> of
  both merges.
\<close>

theorem unreadable_file_aborts_merge:
  assumes "(n, Unreadable) \<in> set files"
  shows "(\<exists>m. (m, Unreadable) \<in> set files \<and>
              concatenate_variables_long (Listing files) = Inl (ReadError m)) \<and>
         (\<exists>e. concatenate_variables_wide (Listing files) = Inl e) \<and>
         concatenate_variables_long NoDir = Inl OSError \<and>
         concatenate_variables_wide NoDir = Inl OSError"
proof -
  from long_loop_unreadable [OF assms, of "[]" "[]"]
  have "\<exists>m. (m, Unreadable) \<in> set files \<and>
          concatenate_variables_long (Listing files) = Inl (ReadError m)"
    by (auto simp: concatenate_variables_long_def listdir_def bind_exn_def)
  moreover from wide_loop_unreadable [OF assms, of None "[]"]
  have "\<exists>e. concatenate_variables_wide (Listing files) = Inl e"
    by (simp add: concatenate_variables_wide_def listdir_def bind_exn_def)
  moreover have "concatenate_variables_long NoDir = Inl OSError"
    by (simp add: concatenate_variables_long_def listdir_def bind_exn_def)
  moreover have "concatenate_variables_wide NoDir = Inl OSError"
    by (simp add: concatenate_variables_wide_def listdir_def bind_exn_def)
  ultimately show ?thesis by simp
qed

text \<open>
  The theorem at a directory with one record set and one unreadable file.
\<close>

theorem unreadable_file_aborts_merge_witness:
  "(\<exists>m. (m, Unreadable) \<in> set [(''V1--2020.feather'', RecordSet [cached ''1'' ''01'' (Some 5)]), (''notes.txt'', Unreadable)] \<and>
        concatenate_variables_long
          (Listing [(''V1--2020.feather'', RecordSet [cached ''1'' ''01'' (Some 5)]), (''notes.txt'', Unreadable)])
          = Inl (ReadError m)) \<and>
   (\<exists>e. concatenate_variables_wide
          (Listing [(''V1--2020.feather'', RecordSet [cached ''1'' ''01'' (Some 5)]), (''notes.txt'', Unreadable)])
          = Inl e)"
proof -
  have m: "(''notes.txt'', Unreadable) \<in> set [(''V1--2020.feather'', RecordSet [cached ''1'' ''01'' (Some 5)]), (''notes.txt'', Unreadable)]"
    by simp
  from unreadable_file_aborts_merge [OF m] show ?thesis by blast
qed

section \<open>The fetch loop\<close>


lemma file_at_update_other:
  "fp \<noteq> filename \<Longrightarrow>
   file_at (Listing (AList.update fp f files)) filename = file_at (Listing files) filename"
  by (simp add: file_at_def update_conv')


lemma scrape_loop_frame:
  assumes "scrape_loop ev acs_vars year completed_vars var_names st = (st', r)"
    and "\<forall>v \<in> set var_names. v \<notin> completed_vars \<and> \<not> fetch_fails ev year v \<longrightarrow> cache_name v year \<noteq> filename"
  shows "file_at (cache st') filename = file_at (cache st) filename"
  using assms
proof (induction var_names arbitrary: st)
  case Nil
  then show ?case by simp
next
  case (Cons var rest)
  have others: "\<forall>v \<in> set rest. v \<notin> completed_vars \<and> \<not> fetch_fails ev year v \<longrightarrow> cache_name v year \<noteq> filename"
    using Cons.prems(2) by simp
  show ?case
  proof (cases "var \<in> completed_vars")
    case True
    with Cons.prems(1) Cons.IH [OF _ others] show ?thesis by simp
  next
    case False
    show ?thesis
    proof (cases "label_item acs_vars var")
      case (Inl e)
      with False Cons.prems(1) show ?thesis by simp
    next
      case (Inr l)
      show ?thesis
      proof (cases "bind_exn (get_acs_variable var year l (census ev))
                      (\<lambda>d. write_feather (writable ev) (cache st) (cache_name var year) d)")
        case failed: (Inl e)
        with False Inr Cons.prems(1) Cons.IH [OF _ others] show ?thesis by simp
      next
        case written: (Inr dir')
        then obtain files d where
          st: "cache st = Listing files" and
          dir': "dir' = Listing (AList.update (cache_name var year) (RecordSet d) files)" and
          ok: "\<not> fetch_fails ev year var"
          by (auto simp: bind_exn_def get_acs_variable_def write_feather_def fetch_fails_def
              split: sum.splits cache_dir.splits if_splits)
        from ok False Cons.prems(2) have "cache_name var year \<noteq> filename" by simp
        then have "file_at dir' filename = file_at (cache st) filename"
          unfolding dir' st by (rule file_at_update_other)
        with False Inr written Cons.prems(1) Cons.IH [OF _ others] show ?thesis by simp
      qed
    qed
  qed
qed

lemma scrape_loop_queried:
  "scrape_loop ev acs_vars year completed_vars var_names st = (st', r) \<Longrightarrow>
   set (queried st') \<subseteq> set (queried st) \<union> {v \<in> set var_names. v \<notin> completed_vars}"
proof (induction var_names arbitrary: st)
  case Nil
  then show ?case by simp
next
  case (Cons var rest)
  show ?case
  proof (cases "var \<in> completed_vars")
    case True
    with Cons.prems Cons.IH show ?thesis by auto
  next
    case False
    show ?thesis
    proof (cases "label_item acs_vars var")
      case (Inl e)
      with False Cons.prems show ?thesis by auto
    next
      case (Inr l)
      show ?thesis
      proof (cases "bind_exn (get_acs_variable var year l (census ev))
                      (\<lambda>d. write_feather (writable ev) (cache st) (cache_name var year) d)")
        case failed: (Inl e)
        with False Inr Cons.prems have
          "scrape_loop ev acs_vars year completed_vars rest
             (st\<lparr>queried := queried st @ [var],
                 printed := printed st @ [VariableFailed var, ErrorText e]\<rparr>) = (st', r)" by simp
        from Cons.IH [OF this] False show ?thesis by auto
      next
        case written: (Inr dir')
        with False Inr Cons.prems have
          "scrape_loop ev acs_vars year completed_vars rest
             (st\<lparr>cache := dir', queried := queried st @ [var]\<rparr>) = (st', r)" by simp
        from Cons.IH [OF this] False show ?thesis by auto
      qed
    qed
  qed
qed





section \<open>Resuming a run\<close>

lemma file_at_makedirs: "file_at (makedirs dir) filename = file_at dir filename"
  by (cases dir) (simp_all add: makedirs_def file_at_def)

lemma file_at_present:
  "file_at (Listing files) filename \<noteq> None \<Longrightarrow> \<exists>e \<in> set files. fst e = filename"
proof -
  assume "file_at (Listing files) filename \<noteq> None"
  then obtain f where "map_of files filename = Some f" by (auto simp: file_at_def)
  then have "(filename, f) \<in> set files" by (rule map_of_SomeD)
  then show ?thesis by force
qed

text \<open>
  Claim C7 says that a variable whose file is in the cache for the target year is not
  queried again and that its file is left as it is. For the identifier \<^verbatim>\<open>A-\<close> the
  completion tracker reads the file \<^verbatim>\<open>A---2021.feather\<close> as the variable \<^verbatim>\<open>A\<close> of
  the year \<open>-2021\<close>, so the run queries \<^verbatim>\<open>A-\<close> again and overwrites its file.
\<close>

theorem trailing_dash_refetch_counterexample:
  "file_at (Listing [(''A---2021.feather'', RecordSet [old_row])]) (cache_name ''A-'' 2021) = Some (RecordSet [old_row]) \<and>
   fetch_phase env_ok (catalogue_of [''A-'']) [''A-''] 2021 (Listing [(''A---2021.feather'', RecordSet [old_row])]) =
     (\<lparr>cache = Listing [(''A---2021.feather'', RecordSet [fetched_row])],
       queried = [''A-''], printed = []\<rparr>, None)"
  by code_simp

text \<open>
  Claim C7, amended. Let no identifier of the batch contain \<^verbatim>\<open>--\<close> or a dot or end
  with a dash. Then a run of the fetch phase on any cache directory issues remote
  queries only for variables of the batch that have no file for the target year in the
  directory, and the file of every variable that has one is afterwards what it was
  before. This holds for every outcome of the run, also when the scan of the directory
  or a catalogue lookup ends it early.
\<close>

theorem resume_skips_cached_variables:
  assumes clean: "\<forall>v \<in> set var_names. \<not> py_contains ''--'' v \<and> CHR ''.'' \<notin> set v \<and> \<not> ends_with_dash v"
    and run: "fetch_phase ev acs_vars var_names year dir = (st', r)"
  shows "set (queried st') \<subseteq> {v \<in> set var_names. file_at dir (cache_name v year) = None} \<and>
         (\<forall>v \<in> set var_names. file_at dir (cache_name v year) \<noteq> None \<longrightarrow>
            file_at (cache st') (cache_name v year) = file_at dir (cache_name v year))"
proof (cases "get_completed_vars (makedirs dir) year")
  case (Inl e)
  with run have "st' = \<lparr>cache = makedirs dir, queried = [], printed = []\<rparr>"
    by (simp add: fetch_phase_def Let_def)
  then show ?thesis by (simp add: file_at_makedirs)
next
  case (Inr completed_vars)
  let ?st = "\<lparr>cache = makedirs dir, queried = [], printed = []\<rparr>"
  from Inr run have loop: "scrape_loop ev acs_vars year completed_vars var_names ?st = (st', r)"
    by (simp add: fetch_phase_def Let_def)
  obtain files where files: "makedirs dir = Listing files"
    by (cases dir) (simp_all add: makedirs_def)
  from Inr have S: "completed_vars = {var. \<exists>e \<in> set files. parse_cache_name (fst e) = Inr (var, year)}"
    unfolding files by (rule scan_result)
  have cached: "v \<in> completed_vars"
    if v: "v \<in> set var_names" and present: "file_at dir (cache_name v year) \<noteq> None" for v
  proof -
    from present have "file_at (Listing files) (cache_name v year) \<noteq> None"
      using file_at_makedirs [of dir "cache_name v year"] files by simp
    then obtain e where e: "e \<in> set files" "fst e = cache_name v year"
      using file_at_present by blast
    from clean v have "parse_cache_name (cache_name v year) = Inr (v, year)"
      by (intro parse_cache_name_roundtrip) auto
    with e(2) have "parse_cache_name (fst e) = Inr (v, year)" by simp
    with e(1) show ?thesis unfolding S by blast
  qed
  have "set (queried st') \<subseteq> {v \<in> set var_names. file_at dir (cache_name v year) = None}"
  proof
    fix v assume "v \<in> set (queried st')"
    with scrape_loop_queried [OF loop] have v: "v \<in> set var_names" "v \<notin> completed_vars" by auto
    with cached [of v] have "file_at dir (cache_name v year) = None" by blast
    with v(1) show "v \<in> {v \<in> set var_names. file_at dir (cache_name v year) = None}" by simp
  qed
  moreover have "file_at (cache st') (cache_name v year) = file_at dir (cache_name v year)"
    if v: "v \<in> set var_names" and present: "file_at dir (cache_name v year) \<noteq> None" for v
  proof -
    have "\<forall>w \<in> set var_names. w \<notin> completed_vars \<and> \<not> fetch_fails ev year w \<longrightarrow>
            cache_name w year \<noteq> cache_name v year"
      using cached [OF v present] by (auto dest: cache_name_inj)
    from scrape_loop_frame [OF loop this] show ?thesis by (simp add: file_at_makedirs)
  qed
  ultimately show ?thesis by blast
qed

lemma resume_run:
  "fetch_phase env_ok (catalogue_of [''A'', ''B'']) [''A'', ''B''] 2021
     (Listing [(''A--2021.feather'', RecordSet [old_row])]) =
   (\<lparr>cache = Listing [(''A--2021.feather'', RecordSet [old_row]), (''B--2021.feather'', RecordSet [fetched_row])],
     queried = [''B''], printed = []\<rparr>, None)"
  by code_simp

lemma resume_clean:
  "\<forall>v \<in> set [''A'', ''B'']. \<not> py_contains ''--'' v \<and> CHR ''.'' \<notin> set v \<and> \<not> ends_with_dash v"
  by (simp add: ends_with_dash_def)

text \<open>
  The theorem on a batch of \<^verbatim>\<open>A\<close> and \<^verbatim>\<open>B\<close> with \<^verbatim>\<open>A\<close> cached: only \<^verbatim>\<open>B\<close> is
  queried, and the file of \<^verbatim>\<open>A\<close> is unchanged.
\<close>

theorem resume_skips_cached_variables_witness:
  "fetch_phase env_ok (catalogue_of [''A'', ''B'']) [''A'', ''B''] 2021
     (Listing [(''A--2021.feather'', RecordSet [old_row])]) =
   (\<lparr>cache = Listing [(''A--2021.feather'', RecordSet [old_row]), (''B--2021.feather'', RecordSet [fetched_row])],
     queried = [''B''], printed = []\<rparr>, None) \<and>
   file_at (Listing [(''A--2021.feather'', RecordSet [old_row])]) (cache_name ''A'' 2021) = Some (RecordSet [old_row]) \<and>
   file_at (Listing [(''A--2021.feather'', RecordSet [old_row]), (''B--2021.feather'', RecordSet [fetched_row])])
     (cache_name ''A'' 2021) = Some (RecordSet [old_row])"
proof -
  have present: "file_at (Listing [(''A--2021.feather'', RecordSet [old_row])]) (cache_name ''A'' 2021) = Some (RecordSet [old_row])"
    by code_simp
  from resume_skips_cached_variables [OF resume_clean resume_run] present
  show ?thesis using resume_run by simp
qed

section \<open>The manifest\<close>








end
